theory Spec2Isabelle
  imports Complex_Main
begin

section \<open>Python strings\<close>

text \<open>
  A Python \<open>str\<close> is a sequence of Unicode code points; slicing, \<open>strip\<close> and the regular
  expression engine all count code points. A string is therefore a list of code points
  (natural numbers); \<open>str\<close> turns an ASCII literal into such a list.
\<close>

type_synonym pystr = "nat list"
type_synonym bytes = "nat list"

definition str :: "string \<Rightarrow> pystr" where
  "str s = map of_char s"

text \<open>
  \<open>str.isspace\<close> on one character. \<open>str.strip()\<close> without argument and the class \<open>\s\<close> of a
  \<open>str\<close> pattern use this same test: U+0009..U+000D, U+001C..U+0020, U+0085, U+00A0,
  U+1680, U+2000..U+200A, U+2028, U+2029, U+202F, U+205F, U+3000.
\<close>

definition isspace :: "nat \<Rightarrow> bool" where
  "isspace c \<longleftrightarrow>
     (9 \<le> c \<and> c \<le> 13) \<or> (28 \<le> c \<and> c \<le> 32) \<or> c = 133 \<or> c = 160 \<or> c = 5760 \<or>
     (8192 \<le> c \<and> c \<le> 8202) \<or> c = 8232 \<or> c = 8233 \<or> c = 8239 \<or> c = 8287 \<or> c = 12288"

text \<open>\<open>text.strip()\<close>: leading and trailing whitespace removed.\<close>

definition strip :: "pystr \<Rightarrow> pystr" where
  "strip s = rev (dropWhile isspace (rev (dropWhile isspace s)))"

text \<open>\<open>s.startswith(p)\<close> and \<open>sub in s\<close> on strings.\<close>

definition startswith :: "pystr \<Rightarrow> pystr \<Rightarrow> bool" where
  "startswith s p \<longleftrightarrow> take (length p) s = p"

fun contains :: "pystr \<Rightarrow> pystr \<Rightarrow> bool" where
  "contains sub [] = (sub = [])"
| "contains sub (c # cs) = (startswith (c # cs) sub \<or> contains sub cs)"

text \<open>
  \<open>s.replace(old, new)\<close>: the occurrences of \<open>old\<close> are found from left to right without
  overlap. For the empty \<open>old\<close> Python puts \<open>new\<close> before every character and at the end.
\<close>

fun replace_scan :: "pystr \<Rightarrow> pystr \<Rightarrow> pystr \<Rightarrow> pystr" where
  "replace_scan old new [] = []"
| "replace_scan old new (c # cs) =
     (if old \<noteq> [] \<and> startswith (c # cs) old
      then new @ replace_scan old new (drop (length old) (c # cs))
      else c # replace_scan old new cs)"

definition replace :: "pystr \<Rightarrow> pystr \<Rightarrow> pystr \<Rightarrow> pystr" where
  "replace s old new =
     (if old = [] then new @ concat (map (\<lambda>c. c # new) s) else replace_scan old new s)"

text \<open>The decimal digits of a non-negative integer, as \<open>f"{seed}"\<close> prints it.\<close>

fun str_of_nat :: "nat \<Rightarrow> pystr" where
  "str_of_nat n = (if n < 10 then [48 + n] else str_of_nat (n div 10) @ [48 + n mod 10])"

declare str_of_nat.simps [simp del]

section \<open>The description post-processor\<close>

text \<open>
  \<^verbatim>\<open>re.sub(r'^#+\s.*$', '', text, flags=re.MULTILINE)\<close>.

  \<open>match_header s\<close> matches the pattern at the head of \<open>s\<close>, which the caller knows to be a
  line start (\<open>^\<close> under \<open>MULTILINE\<close>): \<open>#+\<close> takes the run of \<open>#\<close> (code point 35), which must
  not be empty; \<open>\s\<close> takes one whitespace character, which may be the newline itself (a
  shorter run of \<open>#\<close> cannot help, since \<open>#\<close> is no whitespace); \<open>.*\<close> takes everything up
  to the next newline (code point 10) or the end of the text, where \<open>$\<close> holds. The result
  is the matched text and the rest.
\<close>

definition match_header :: "pystr \<Rightarrow> (pystr \<times> pystr) option" where
  "match_header s =
     (let hashes = takeWhile (\<lambda>c. c = 35) s; r = dropWhile (\<lambda>c. c = 35) s in
      if hashes = [] then None
      else (case r of
              [] \<Rightarrow> None
            | c # r' \<Rightarrow>
                if isspace c
                then Some (hashes @ c # takeWhile (\<lambda>c. c \<noteq> 10) r', dropWhile (\<lambda>c. c \<noteq> 10) r')
                else None))"

lemma match_header_split:
  assumes "match_header s = Some (m, r)"
  shows "s = m @ r" and "m \<noteq> []" and "length r < length s"
proof -
  from assms obtain c r' where
    r: "dropWhile (\<lambda>c. c = 35) s = c # r'" and
    m: "m = takeWhile (\<lambda>c. c = 35) s @ c # takeWhile (\<lambda>c. c \<noteq> 10) r'" and
    r': "r = dropWhile (\<lambda>c. c \<noteq> 10) r'"
    unfolding match_header_def Let_def by (auto split: if_splits list.splits)
  have "s = takeWhile (\<lambda>c. c = 35) s @ dropWhile (\<lambda>c. c = 35) s" by simp
  also have "\<dots> = m @ r" unfolding r m r' by simp
  finally show "s = m @ r" .
  show "m \<noteq> []" using m by simp
  with \<open>s = m @ r\<close> show "length r < length s"
    by (metis length_append length_greater_0_conv less_add_same_cancel2)
qed

text \<open>
  The scan of \<open>re.sub\<close>: the matches are found from left to right without overlap, each is
  replaced by the empty string, every other character is copied. \<open>bol\<close> says whether the
  current position is a line start: the start of the text, or just after a newline.
\<close>

function re_sub_headers_from :: "bool \<Rightarrow> pystr \<Rightarrow> pystr" where
  "re_sub_headers_from bol [] = []"
| "re_sub_headers_from bol (c # cs) =
     (case (if bol then match_header (c # cs) else None) of
        Some (m, rest) \<Rightarrow> re_sub_headers_from (last m = 10) rest
      | None \<Rightarrow> c # re_sub_headers_from (c = 10) cs)"
  by pat_completeness auto
termination
  apply (relation "measure (\<lambda>(bol, s). length s)")
    apply simp
   apply (auto split: if_splits dest: match_header_split(3))
  done

definition re_sub_headers :: "pystr \<Rightarrow> pystr" where
  "re_sub_headers text = re_sub_headers_from True text"

text \<open>\<open>AIGeneratorService._clean_description\<close>.\<close>

definition clean_description :: "pystr \<Rightarrow> pystr" where
  "clean_description text = strip (re_sub_headers text)"

section \<open>Percent-encoding\<close>

text \<open>
  \<open>urllib.parse.quote(s)\<close> with its defaults (\<open>safe='/'\<close>, UTF-8, \<open>errors='strict'\<close>): the
  string is encoded to UTF-8, which fails on a surrogate code point (U+D800..U+DFFF);
  every byte that is not a letter, a digit or one of \<open>_.-~/\<close> becomes \<open>%XX\<close> with upper-case
  hexadecimal digits. (A number from 1114112 on is no code point of a Python string; it
  is refused like a surrogate.)

  Exceptions are values: \<open>TypeError\<close> and \<open>UnicodeEncodeError\<close> are raised by the
  operations of the code itself on a value of the wrong kind; \<open>Raised name\<close> is an
  exception raised by a collaborator (the text chain, \<open>requests\<close>, the file system). All
  of them are instances of \<open>Exception\<close>.
\<close>

datatype exn = TypeError | UnicodeEncodeError | Raised string

definition utf8_encode_char :: "nat \<Rightarrow> bytes option" where
  "utf8_encode_char c =
     (if c < 128 then Some [c]
      else if c < 2048 then Some [192 + c div 64, 128 + c mod 64]
      else if 55296 \<le> c \<and> c \<le> 57343 then None
      else if c < 65536 then Some [224 + c div 4096, 128 + (c div 64) mod 64, 128 + c mod 64]
      else if c < 1114112
        then Some [240 + c div 262144, 128 + (c div 4096) mod 64, 128 + (c div 64) mod 64,
                   128 + c mod 64]
      else None)"

fun utf8_encode :: "pystr \<Rightarrow> bytes option" where
  "utf8_encode [] = Some []"
| "utf8_encode (c # cs) =
     (case utf8_encode_char c of
        None \<Rightarrow> None
      | Some bs \<Rightarrow> (case utf8_encode cs of None \<Rightarrow> None | Some rest \<Rightarrow> Some (bs @ rest)))"

definition always_safe :: "nat \<Rightarrow> bool" where
  "always_safe b \<longleftrightarrow>
     (65 \<le> b \<and> b \<le> 90) \<or> (97 \<le> b \<and> b \<le> 122) \<or> (48 \<le> b \<and> b \<le> 57) \<or>
     b = 95 \<or> b = 46 \<or> b = 45 \<or> b = 126"

definition hex_digit :: "nat \<Rightarrow> nat" where
  "hex_digit n = (if n < 10 then 48 + n else 55 + n)"

definition quote_byte :: "nat \<Rightarrow> pystr" where
  "quote_byte b =
     (if always_safe b \<or> b = 47 then [b] else [37, hex_digit (b div 16), hex_digit (b mod 16)])"

definition quote :: "pystr \<Rightarrow> exn + pystr" where
  "quote s =
     (case utf8_encode s of
        None \<Rightarrow> Inl UnicodeEncodeError
      | Some bs \<Rightarrow> Inr (concat (map quote_byte bs)))"

section \<open>JSON values and dictionaries\<close>

text \<open>
  What \<open>JsonOutputParser\<close> hands back is a parsed JSON value. A Python \<open>dict\<close> keeps its
  keys in insertion order, so it is an association list; \<open>d[k] = v\<close> replaces the value of
  an existing key in place and appends a new key at the end. Numbers are only passed
  through.
\<close>

datatype json =
    JNull
  | JBool bool
  | JInt int
  | JFloat real
  | JStr pystr
  | JList "json list"
  | JDict "(pystr \<times> json) list"

type_synonym dict = "(pystr \<times> json) list"

definition dict_get :: "dict \<Rightarrow> pystr \<Rightarrow> json option" where
  "dict_get d k = map_of d k"

fun dict_set :: "dict \<Rightarrow> pystr \<Rightarrow> json \<Rightarrow> dict" where
  "dict_set [] k v = [(k, v)]"
| "dict_set ((k', v') # d) k v =
     (if k' = k then (k', v) # d else (k', v') # dict_set d k v)"

section \<open>Schema definitions\<close>

text \<open>
  The pydantic classes \<open>AgendaItem\<close> (\<open>time\<close>, \<open>title\<close>, \<open>speaker\<close>, all \<open>str\<close>) and
  \<open>EventContent\<close> (\<open>description: str\<close>, \<open>agenda: List[AgendaItem]\<close>, \<open>tags: List[str]\<close>,
  \<open>image_prompt: str\<close>), read as a predicate on JSON values: every field is present with
  its declared type.
\<close>

definition is_str :: "json option \<Rightarrow> bool" where
  "is_str v = (case v of Some (JStr s) \<Rightarrow> True | _ \<Rightarrow> False)"

definition valid_AgendaItem :: "json \<Rightarrow> bool" where
  "valid_AgendaItem v =
     (case v of
        JDict a \<Rightarrow> is_str (dict_get a (str ''time'')) \<and> is_str (dict_get a (str ''title'')) \<and>
                   is_str (dict_get a (str ''speaker''))
      | _ \<Rightarrow> False)"

definition valid_EventContent :: "json \<Rightarrow> bool" where
  "valid_EventContent v =
     (case v of
        JDict d \<Rightarrow>
          is_str (dict_get d (str ''description'')) \<and>
          (case dict_get d (str ''agenda'') of
             Some (JList items) \<Rightarrow> list_all valid_AgendaItem items
           | _ \<Rightarrow> False) \<and>
          (case dict_get d (str ''tags'') of
             Some (JList ts) \<Rightarrow> list_all (\<lambda>t. is_str (Some t)) ts
           | _ \<Rightarrow> False) \<and>
          is_str (dict_get d (str ''image_prompt''))
      | _ \<Rightarrow> False)"

section \<open>The environment of one call\<close>

text \<open>
  Everything \<open>generate_event_content\<close> obtains from outside is a field of \<open>world\<close>: the
  environment variable, the value \<open>random.randint(1, 1000000)\<close> returns, the string of
  the \<open>uuid.uuid4()\<close> drawn, the working directory, and what \<open>requests.get\<close>,
  \<open>os.makedirs\<close> and writing a file do (\<open>Inl\<close>, respectively \<open>Some\<close>: the exception
  raised). What the call does to the outside is the list of \<open>event\<close>s it returns: the
  requests issued (URL, headers, timeout), the directories created and the files written,
  each recorded when it is attempted. \<open>os.getcwd\<close> is taken to succeed.
\<close>

record http_response =
  status_code :: int
  content_type :: "pystr option"
  content :: bytes

record world =
  getenv_POLLINATIONS_API_KEY :: "pystr option"
  randint :: nat
  uuid4 :: pystr
  getcwd :: pystr
  requests_get :: "pystr \<Rightarrow> exn + http_response"
  makedirs :: "pystr \<Rightarrow> exn option"
  write_file :: "pystr \<Rightarrow> bytes \<Rightarrow> exn option"

datatype event =
    HttpGet pystr "(pystr \<times> pystr) list" nat
  | MakeDirs pystr
  | WriteFile pystr bytes

text \<open>\<open>os.path.join\<close> and \<open>os.path.dirname\<close> of \<open>posixpath\<close> (47 is \<open>/\<close>).\<close>

fun os_path_join :: "pystr \<Rightarrow> pystr list \<Rightarrow> pystr" where
  "os_path_join path [] = path"
| "os_path_join path (b # bs) =
     os_path_join
       (if startswith b [47] then b
        else if path = [] \<or> last path = 47 then path @ b
        else path @ [47] @ b) bs"

declare os_path_join.simps [simp del]

definition os_path_dirname :: "pystr \<Rightarrow> pystr" where
  "os_path_dirname p =
     (let head = rev (dropWhile (\<lambda>c. c \<noteq> 47) (rev p)) in
      if head \<noteq> [] \<and> head \<noteq> replicate (length head) 47
      then rev (dropWhile (\<lambda>c. c = 47) (rev head))
      else head)"

section \<open>generate_event_content\<close>

definition headers :: "(pystr \<times> pystr) list" where
  "headers =
     [(str ''User-Agent'',
       str ''Mozilla/5.0 (Windows NT 10.0; Win64; x64) AppleWebKit/537.36 (KHTML, like Gecko) Chrome/91.0.4472.124 Safari/537.36'')]"

text \<open>Lines 66 to 68: the description, when the key is present, is cleaned.\<close>

definition post_process :: "dict \<Rightarrow> exn + dict" where
  "post_process result =
     (case dict_get result (str ''description'') of
        None \<Rightarrow> Inr result
      | Some (JStr text) \<Rightarrow>
          Inr (dict_set result (str ''description'') (JStr (clean_description text)))
      | Some _ \<Rightarrow> Inl TypeError)"

text \<open>
  Lines 77 to 88: the request URL. Slicing or concatenating a value that is no string
  raises (\<open>TypeError\<close>; for a \<open>dict\<close> the class of the exception depends on the Python
  version, which no property below looks at), and \<open>quote\<close> may raise; both happen before
  the inner \<open>try\<close>, so the exception leaves the function through the outer handler.
\<close>

definition pollinations_url :: "world \<Rightarrow> json \<Rightarrow> exn + pystr" where
  "pollinations_url w image_prompt =
     (case image_prompt of
        JStr p \<Rightarrow>
          (let seed = randint w;
               base_prompt = take 200 p;
               enhanced_prompt = base_prompt @ str '', cinematic lighting''
           in case quote enhanced_prompt of
                Inl e \<Rightarrow> Inl e
              | Inr encoded_prompt \<Rightarrow>
                  (let api_key_param =
                         (case getenv_POLLINATIONS_API_KEY w of
                            None \<Rightarrow> []
                          | Some k \<Rightarrow> if k \<noteq> [] then str ''&api_key='' @ k else [])
                   in Inr (str ''https://image.pollinations.ai/prompt/'' @ encoded_prompt @
                           str ''.png?width=1280&height=720&model=flux&nologo=true&seed='' @
                           str_of_nat seed @ api_key_param)))
      | _ \<Rightarrow> Inl TypeError)"

text \<open>
  Lines 91 to 132: the download inside the inner \<open>try\<close>. Every exception raised there is
  caught by \<open>except Exception as dl_err\<close>, which sets \<open>imageUrl\<close> to the empty string. The
  block that stores the image occurs twice in the source (lines 100 to 109 for the first
  response, lines 119 to 124 for the retry), and twice here.
\<close>

definition download_image :: "world \<Rightarrow> dict \<Rightarrow> pystr \<Rightarrow> dict \<times> event list" where
  "download_image w result url =
     (case requests_get w url of
        Inl dl_err \<Rightarrow>
          (dict_set result (str ''imageUrl'') (JStr []), [HttpGet url headers 30])
      | Inr img_response \<Rightarrow>
          if status_code img_response = 200 \<and>
             contains (str ''image'')
               (case content_type img_response of None \<Rightarrow> [] | Some v \<Rightarrow> v)
          then
            (let filename = str ''ai_gen_'' @ uuid4 w @ str ''.png'';
                 file_path = os_path_join (getcwd w) [str ''uploads'', filename];
                 dir = os_path_dirname file_path
             in case makedirs w dir of
                  Some dl_err \<Rightarrow>
                    (dict_set result (str ''imageUrl'') (JStr []),
                     [HttpGet url headers 30, MakeDirs dir])
                | None \<Rightarrow>
                    (case write_file w file_path (content img_response) of
                       Some dl_err \<Rightarrow>
                         (dict_set result (str ''imageUrl'') (JStr []),
                          [HttpGet url headers 30, MakeDirs dir,
                           WriteFile file_path (content img_response)])
                     | None \<Rightarrow>
                         (dict_set result (str ''imageUrl'')
                            (JStr (str ''http://localhost:8000/uploads/'' @ filename)),
                          [HttpGet url headers 30, MakeDirs dir,
                           WriteFile file_path (content img_response)])))
          else if contains (str ''model=flux'') url then
            (let retry_url = replace url (str ''model=flux'') (str ''model=turbo'')
             in case requests_get w retry_url of
                  Inl dl_err \<Rightarrow>
                    (dict_set result (str ''imageUrl'') (JStr []),
                     [HttpGet url headers 30, HttpGet retry_url headers 30])
                | Inr img_response \<Rightarrow>
                    if status_code img_response = 200 \<and>
                       contains (str ''image'')
                         (case content_type img_response of None \<Rightarrow> [] | Some v \<Rightarrow> v)
                    then
                      (let filename = str ''ai_gen_'' @ uuid4 w @ str ''.png'';
                           file_path = os_path_join (getcwd w) [str ''uploads'', filename];
                           dir = os_path_dirname file_path
                       in case makedirs w dir of
                            Some dl_err \<Rightarrow>
                              (dict_set result (str ''imageUrl'') (JStr []),
                               [HttpGet url headers 30,
                                HttpGet retry_url headers 30, MakeDirs dir])
                          | None \<Rightarrow>
                              (case write_file w file_path (content img_response) of
                                 Some dl_err \<Rightarrow>
                                   (dict_set result (str ''imageUrl'') (JStr []),
                                    [HttpGet url headers 30,
                                     HttpGet retry_url headers 30, MakeDirs dir,
                                     WriteFile file_path (content img_response)])
                               | None \<Rightarrow>
                                   (dict_set result (str ''imageUrl'')
                                      (JStr (str ''http://localhost:8000/uploads/'' @ filename)),
                                    [HttpGet url headers 30,
                                     HttpGet retry_url headers 30, MakeDirs dir,
                                     WriteFile file_path (content img_response)])))
                    else
                      (dict_set result (str ''imageUrl'') (JStr []),
                       [HttpGet url headers 30, HttpGet retry_url headers 30]))
          else
            (dict_set result (str ''imageUrl'') (JStr []), [HttpGet url headers 30]))"

text \<open>
  \<open>AIGeneratorService.generate_event_content\<close>, from the awaited \<open>chain.ainvoke(prompt)\<close> on:
  \<open>chain_result\<close> is the exception it raised or the value it returned (the prompt only
  influences what the text backend answers). The outer handler prints and re-raises.
  On a value that is no \<open>dict\<close>, the membership tests or the item assignment raise
  \<open>TypeError\<close> on every path. Printing is not modelled.
\<close>

definition generate_event_content :: "world \<Rightarrow> exn + json \<Rightarrow> (exn + json) \<times> event list" where
  "generate_event_content w chain_result =
     (case chain_result of
        Inl e \<Rightarrow> (Inl e, [])
      | Inr (JDict result0) \<Rightarrow>
          (case post_process result0 of
             Inl e \<Rightarrow> (Inl e, [])
           | Inr result \<Rightarrow>
               (case dict_get result (str ''image_prompt'') of
                  None \<Rightarrow> (Inr (JDict (dict_set result (str ''imageUrl'') (JStr []))), [])
                | Some image_prompt \<Rightarrow>
                    (case pollinations_url w image_prompt of
                       Inl e \<Rightarrow> (Inl e, [])
                     | Inr url \<Rightarrow>
                         (let (result', events) = download_image w result url
                          in (Inr (JDict result'), events)))))
      | Inr _ \<Rightarrow> (Inl TypeError, []))"

section \<open>Definitions that follow the specification\<close>

text \<open>
  The success condition of step 6 of the Image Acquisition Pipeline: the status is OK and
  the declared content type mentions an image.
\<close>

definition is_image_response :: "http_response \<Rightarrow> bool" where
  "is_image_response r \<longleftrightarrow>
     status_code r = 200 \<and>
     contains (str ''image'') (case content_type r of None \<Rightarrow> [] | Some v \<Rightarrow> v)"

text \<open>
  The persistence of step 6: the bytes are written under a fresh name in the uploads
  directory, which is created first; the public URL is the fixed base address and the
  file name. When the file system refuses, the URL is empty.
\<close>

definition store_image :: "world \<Rightarrow> bytes \<Rightarrow> pystr \<times> event list" where
  "store_image w data =
     (let filename = str ''ai_gen_'' @ uuid4 w @ str ''.png'';
          file_path = os_path_join (getcwd w) [str ''uploads'', filename];
          dir = os_path_dirname file_path
      in case makedirs w dir of
           Some e \<Rightarrow> ([], [MakeDirs dir])
         | None \<Rightarrow>
             (case write_file w file_path data of
                Some e \<Rightarrow> ([], [MakeDirs dir, WriteFile file_path data])
              | None \<Rightarrow>
                  (str ''http://localhost:8000/uploads/'' @ filename,
                   [MakeDirs dir, WriteFile file_path data])))"

text \<open>What one download attempt contributes: the image URL and the file system events.\<close>

definition image_attempt :: "world \<Rightarrow> exn + http_response \<Rightarrow> pystr \<times> event list" where
  "image_attempt w outcome =
     (case outcome of
        Inl e \<Rightarrow> ([], [])
      | Inr r \<Rightarrow> if is_image_response r then store_image w (content r) else ([], []))"

text \<open>
  The request URL of step 4, by rendering model: the encoded prompt, the fixed
  dimensions, the model, the no-watermark flag, the seed, and the API key when one is
  configured (the variable is set and not empty).
\<close>

definition image_request_url :: "pystr \<Rightarrow> pystr \<Rightarrow> nat \<Rightarrow> pystr option \<Rightarrow> pystr" where
  "image_request_url model encoded_prompt seed key =
     str ''https://image.pollinations.ai'' @ str ''/prompt/'' @ encoded_prompt @
     str ''.png?width=1280&height=720&model='' @ model @ str ''&nologo=true&seed='' @
     str_of_nat seed @
     (case key of None \<Rightarrow> [] | Some k \<Rightarrow> if k = [] then [] else str ''&api_key='' @ k)"

text \<open>
  What \<open>generate_event_content\<close> needs of the value the text step yields: a \<open>dict\<close>
  whose \<open>description\<close> is absent or a string and whose \<open>image_prompt\<close> is absent or a
  string of which the first 200 characters, with the style suffix, can be encoded.
\<close>

definition usable :: "json \<Rightarrow> bool" where
  "usable v =
     (case v of
        JDict d \<Rightarrow>
          (case dict_get d (str ''description'') of
             None \<Rightarrow> True | Some (JStr t) \<Rightarrow> True | Some _ \<Rightarrow> False) \<and>
          (case dict_get d (str ''image_prompt'') of
             None \<Rightarrow> True
           | Some (JStr p) \<Rightarrow>
               (case quote (take 200 p @ str '', cinematic lighting'') of
                  Inl e \<Rightarrow> False | Inr enc \<Rightarrow> True)
           | Some _ \<Rightarrow> False)
      | _ \<Rightarrow> False)"

text \<open>
  Steps 5 to 8 of the pipeline for a request URL: the first attempt, the retry with the
  model swapped when the first response fails the success condition, and the empty URL
  otherwise. The result is the image URL and the events in order.
\<close>

definition acquire_image :: "world \<Rightarrow> pystr \<Rightarrow> pystr \<times> event list" where
  "acquire_image w url =
     (case requests_get w url of
        Inl e \<Rightarrow> ([], [HttpGet url headers 30])
      | Inr r \<Rightarrow>
          if is_image_response r
          then (fst (store_image w (content r)),
                HttpGet url headers 30 # snd (store_image w (content r)))
          else if contains (str ''model=flux'') url
          then (let retry_url = replace url (str ''model=flux'') (str ''model=turbo'')
                in (fst (image_attempt w (requests_get w retry_url)),
                    HttpGet url headers 30 # HttpGet retry_url headers 30 #
                    snd (image_attempt w (requests_get w retry_url))))
          else ([], [HttpGet url headers 30]))"

text \<open>The URLs requested, in order.\<close>

fun requests_made :: "event list \<Rightarrow> pystr list" where
  "requests_made [] = []"
| "requests_made (HttpGet url hs timeout # es) = url # requests_made es"
| "requests_made (MakeDirs dir # es) = requests_made es"
| "requests_made (WriteFile path data # es) = requests_made es"

section \<open>Example environments\<close>

definition example_world :: "(pystr \<Rightarrow> exn + http_response) \<Rightarrow> world" where
  "example_world backend =
     \<lparr>getenv_POLLINATIONS_API_KEY = None, randint = 42,
      uuid4 = str ''123e4567-e89b-42d3-a456-426614174000'', getcwd = str ''/app'',
      requests_get = backend, makedirs = (\<lambda>dir. None), write_file = (\<lambda>path data. None)\<rparr>"

definition backend_error :: "pystr \<Rightarrow> exn + http_response" where
  "backend_error url = Inr \<lparr>status_code = 500, content_type = Some (str ''text/html''), content = []\<rparr>"

definition backend_down :: "pystr \<Rightarrow> exn + http_response" where
  "backend_down url = Inl (Raised ''ConnectionError'')"

definition backend_turbo_only :: "pystr \<Rightarrow> exn + http_response" where
  "backend_turbo_only url =
     (if contains (str ''model=turbo'') url
      then Inr \<lparr>status_code = 200, content_type = Some (str ''image/png''), content = [137, 80, 78, 71]\<rparr>
      else Inr \<lparr>status_code = 500, content_type = Some (str ''text/html''), content = []\<rparr>)"

definition example_content :: json where
  "example_content =
     JDict [(str ''description'', JStr (str ''# Welcome\<newline>Body text'')),
            (str ''agenda'', JList []),
            (str ''tags'', JList [JStr (str ''ai'')]),
            (str ''image_prompt'', JStr (str ''a cat''))]"

section \<open>Properties of the description post-processor\<close>

lemma isspace_simps [simp]: "isspace 10" "\<not> isspace 35" "isspace 32"
  by (simp_all add: isspace_def)

lemma takeWhile_run: "\<forall>c\<in>set hs. P c \<Longrightarrow> \<not> P w \<Longrightarrow> takeWhile P (hs @ w # r) = hs"
  by (induction hs) simp_all

lemma dropWhile_run: "\<forall>c\<in>set hs. P c \<Longrightarrow> \<not> P w \<Longrightarrow> dropWhile P (hs @ w # r) = w # r"
  by (induction hs) simp_all

lemma takeWhile_line:
  "10 \<notin> set body \<Longrightarrow> post = [] \<or> (\<exists>ps. post = 10 # ps) \<Longrightarrow> takeWhile (\<lambda>c::nat. c \<noteq> 10) (body @ post) = body"
  by (induction body) auto

lemma dropWhile_line:
  "10 \<notin> set body \<Longrightarrow> post = [] \<or> (\<exists>ps. post = 10 # ps) \<Longrightarrow> dropWhile (\<lambda>c::nat. c \<noteq> 10) (body @ post) = post"
  by (induction body) auto

lemma match_header_append:
  assumes "pre \<noteq> []" "last pre = 10"
  shows "match_header (pre @ Y) =
     (case match_header pre of
        None \<Rightarrow> None
      | Some (m, r) \<Rightarrow>
          if r = [] then Some (m @ takeWhile (\<lambda>c. c \<noteq> 10) Y, dropWhile (\<lambda>c. c \<noteq> 10) Y)
          else Some (m, r @ Y))"
proof -
  let ?P = "\<lambda>c::nat. c = 35" and ?Q = "\<lambda>c::nat. c \<noteq> 10"
  from assms have in_pre: "10 \<in> set pre" by (metis last_in_set)
  have np: "\<not> ?P 10" by simp
  have tw: "takeWhile ?P (pre @ Y) = takeWhile ?P pre"
    using takeWhile_append1[of 10 pre ?P Y] in_pre by simp
  have dw: "dropWhile ?P (pre @ Y) = dropWhile ?P pre @ Y"
    using dropWhile_append1[of 10 pre ?P Y] in_pre by simp
  have "dropWhile ?P pre \<noteq> []"
    using in_pre np unfolding dropWhile_eq_Nil_conv by blast
  then obtain c r1 where r1: "dropWhile ?P pre = c # r1" by (cases "dropWhile ?P pre") auto
  have pre_eq: "pre = takeWhile ?P pre @ c # r1"
    using r1 by (metis takeWhile_dropWhile_id)
  show ?thesis
  proof (cases "r1 = []")
    case True
    then show ?thesis
      unfolding match_header_def Let_def tw dw r1 by simp
  next
    case False
    with pre_eq assms have "last r1 = 10" by (metis last_append last_ConsR list.distinct(1))
    with False have in_r1: "10 \<in> set r1" by (metis last_in_set)
    have nq: "\<not> ?Q 10" by simp
    have tq: "takeWhile ?Q (r1 @ Y) = takeWhile ?Q r1"
      using takeWhile_append1[of 10 r1 ?Q Y] in_r1 by simp
    have dq: "dropWhile ?Q (r1 @ Y) = dropWhile ?Q r1 @ Y"
      using dropWhile_append1[of 10 r1 ?Q Y] in_r1 by simp
    have ne: "dropWhile ?Q r1 \<noteq> []"
      using in_r1 nq unfolding dropWhile_eq_Nil_conv by blast
    show ?thesis
      unfolding match_header_def Let_def tw dw r1 using in_r1 by (auto simp add: tq dq)
  qed
qed

lemma match_header_line:
  assumes "hs \<noteq> []" "\<forall>c\<in>set hs. c = 35" "isspace w" "w \<noteq> 10" "10 \<notin> set body"
    and "post = [] \<or> (\<exists>ps. post = 10 # ps)"
  shows "match_header (hs @ w # body @ post) = Some (hs @ w # body, post)"
proof -
  let ?P = "\<lambda>c::nat. c = 35"
  from assms(3) have w: "\<not> ?P w" by auto
  have tw: "takeWhile ?P (hs @ w # body @ post) = hs"
    by (rule takeWhile_run[of hs ?P, OF assms(2) w])
  have dw: "dropWhile ?P (hs @ w # body @ post) = w # body @ post"
    by (rule dropWhile_run[of hs ?P, OF assms(2) w])
  show ?thesis
    unfolding match_header_def Let_def tw dw
    by (simp add: assms(1,3) takeWhile_line[OF assms(5,6)] dropWhile_line[OF assms(5,6)])
qed

lemma last_line_not_newline: "w \<noteq> 10 \<Longrightarrow> 10 \<notin> set body \<Longrightarrow> last (m @ hs @ w # body) \<noteq> (10::nat)"
  by (cases body rule: rev_cases) auto

lemma re_sub_headers_from_header_line:
  assumes L: "hs \<noteq> []" "\<forall>c\<in>set hs. c = 35" "isspace w" "w \<noteq> 10" "10 \<notin> set body"
    and post: "post = [] \<or> (\<exists>ps. post = 10 # ps)"
    and pre: "pre = [] \<longrightarrow> bol" "pre \<noteq> [] \<longrightarrow> last pre = 10"
  shows "re_sub_headers_from bol (pre @ hs @ w # body @ post) =
         re_sub_headers_from bol pre @ re_sub_headers_from False post"
  using pre
proof (induction bol pre rule: re_sub_headers_from.induct)
  case (1 bol)
  then have bol by simp
  obtain h hs' where hs: "hs = h # hs'" using L(1) by (cases hs) auto
  have ne: "last (hs @ w # body) \<noteq> 10"
    using last_line_not_newline[OF L(4,5), of "[]" hs] by simp
  have mh: "match_header (h # hs' @ w # body @ post) = Some (hs @ w # body, post)"
    using match_header_line[OF L post] unfolding hs by simp
  have "re_sub_headers_from True (h # hs' @ w # body @ post) = re_sub_headers_from False post"
    using ne by (simp add: mh)
  with \<open>bol\<close> show ?case unfolding hs by simp
next
  case (2 bol c cs)
  let ?Y = "hs @ w # body @ post"
  have lp: "last (c # cs) = 10" using "2.prems" by simp
  have app: "match_header (c # cs @ ?Y) =
     (case match_header (c # cs) of
        None \<Rightarrow> None
      | Some (m, r) \<Rightarrow>
          if r = [] then Some (m @ takeWhile (\<lambda>c. c \<noteq> 10) ?Y, dropWhile (\<lambda>c. c \<noteq> 10) ?Y)
          else Some (m, r @ ?Y))"
    using match_header_append[of "c # cs" ?Y] lp by simp
  have nl: "10 \<notin> set (hs @ w # body)" using L(2,4,5) by auto
  have q: "takeWhile (\<lambda>c. c \<noteq> 10) ?Y = hs @ w # body" "dropWhile (\<lambda>c. c \<noteq> 10) ?Y = post"
    using takeWhile_line[OF nl post] dropWhile_line[OF nl post] by simp_all
  show ?case
  proof (cases "if bol then match_header (c # cs) else None")
    case None
    have full: "(if bol then match_header (c # cs @ ?Y) else None) = None"
      using None unfolding app by (simp split: if_splits)
    have p1: "cs = [] \<longrightarrow> c = 10" and p2: "cs \<noteq> [] \<longrightarrow> last cs = 10"
      using lp by (simp_all split: if_splits)
    have "re_sub_headers_from (c = 10) (cs @ ?Y) =
          re_sub_headers_from (c = 10) cs @ re_sub_headers_from False post"
      by (rule "2.IH"(1)[OF None p1 p2])
    then show ?thesis by (simp add: None full)
  next
    case (Some x)
    obtain m r where x: "x = (m, r)" by (cases x)
    from Some x have bol: bol and mh: "match_header (c # cs) = Some (m, r)"
      by (simp_all split: if_splits)
    note sp = match_header_split[OF mh]
    show ?thesis
    proof (cases "r = []")
      case True
      have ne: "last (m @ hs @ w # body) \<noteq> 10" by (rule last_line_not_newline[OF L(4,5)])
      have "match_header (c # cs @ ?Y) = Some (m @ hs @ w # body, post)"
        unfolding app by (simp add: mh True q)
      then show ?thesis using ne by (simp add: bol mh True)
    next
      case False
      have "last r = 10" using sp(1) lp False by (metis last_appendR)
      then have ih: "re_sub_headers_from (last m = 10) (r @ ?Y) =
            re_sub_headers_from (last m = 10) r @ re_sub_headers_from False post"
        using "2.IH"(2)[OF Some x[symmetric]] False by simp
      have "match_header (c # cs @ ?Y) = Some (m, r @ ?Y)"
        unfolding app by (simp add: mh False)
      then show ?thesis by (simp add: bol mh ih)
    qed
  qed
qed

lemmas clean_eval = clean_description_def re_sub_headers_def str_def match_header_def isspace_def strip_def

lemma strip_trimmed:
  "strip s = [] \<or> (\<not> isspace (hd (strip s)) \<and> \<not> isspace (last (strip s)))"
proof (cases "strip s = []")
  case True then show ?thesis by simp
next
  case False
  let ?a = "dropWhile isspace s"
  let ?b = "dropWhile isspace (rev ?a)"
  have s: "strip s = rev ?b" by (simp add: strip_def)
  with False have b: "?b \<noteq> []" by simp
  then have "\<not> isspace (hd ?b)" by (rule hd_dropWhile)
  then have l: "\<not> isspace (last (strip s))" using b by (simp add: s last_rev)
  have a: "?a \<noteq> []"
  proof
    assume "?a = []"
    then have "?b = []" by (simp only: rev.simps dropWhile.simps)
    with b show False by simp
  qed
  then have ha: "\<not> isspace (hd ?a)" by (rule hd_dropWhile)
  have "rev ?a = takeWhile isspace (rev ?a) @ ?b" by simp
  then have "last (rev ?a) = last ?b" using b by (metis last_appendR)
  then have "last ?b = hd ?a" using a by (simp add: last_rev)
  then have "\<not> isspace (hd (strip s))" using ha b by (simp add: s hd_rev)
  with l show ?thesis by simp
qed

text \<open>
  Claim C7 (idempotence of \<open>_clean_description\<close>) fails on the code. The pattern is anchored
  at line starts, and \<open>strip\<close> runs after the substitution: a header behind leading
  whitespace is not matched, \<open>strip\<close> then moves it to a line start, and a second
  application removes it. On \<open>" # Welcome"\<close> the function returns the header \<open>"# Welcome"\<close>
  (which its docstring, "Removes markdown headers", says it removes), and on that it
  returns the empty string.
\<close>

theorem clean_description_not_idempotent:
  "clean_description (str '' # Welcome'') = str ''# Welcome'' \<and>
   clean_description (clean_description (str '' # Welcome'')) = [] \<and>
   clean_description (clean_description (str '' # Welcome'')) \<noteq> clean_description (str '' # Welcome'')"
  by (simp add: clean_eval)

text \<open>
  Claim C8: \<open>_clean_description\<close> removes every line that begins with one or more \<open>#\<close>
  followed by whitespace, and trims the result. Take any text split as \<open>pre\<close>, a header
  line \<open>hs @ w # body\<close> (a non-empty run \<open>hs\<close> of \<open>#\<close>, a whitespace character \<open>w\<close> of the
  line, the rest \<open>body\<close> of the line) and \<open>post\<close>, where \<open>pre\<close> is empty or ends with a
  newline and \<open>post\<close> is empty or begins with the newline that ends the header line. Then
  the result is the trimmed concatenation of what the substitution leaves of \<open>pre\<close> and
  what it leaves of \<open>post\<close>: nothing of the header line survives (its newline, the head
  of \<open>post\<close>, stays). The result of the function never begins or ends with whitespace,
  and \<open>"# Welcome\nBody text"\<close> becomes \<open>"Body text"\<close>.
\<close>

theorem clean_description_removes_header_lines:
  assumes "pre = [] \<or> (\<exists>ps. pre = ps @ [10])"
    and "hs \<noteq> []" and "\<forall>c\<in>set hs. c = 35"
    and "isspace w" and "w \<noteq> 10" and "10 \<notin> set body"
    and "post = [] \<or> (\<exists>ps. post = 10 # ps)"
  shows "clean_description (pre @ hs @ w # body @ post) =
           strip (re_sub_headers pre @ re_sub_headers_from False post) \<and>
         (clean_description text = [] \<or>
            (\<not> isspace (hd (clean_description text)) \<and> \<not> isspace (last (clean_description text)))) \<and>
         clean_description (str ''# Welcome\<newline>Body text'') = str ''Body text''"
proof -
  have p1: "pre = [] \<longrightarrow> True" by simp
  have p2: "pre \<noteq> [] \<longrightarrow> last pre = 10" using assms(1) by auto
  have "re_sub_headers_from True (pre @ hs @ w # body @ post) =
        re_sub_headers_from True pre @ re_sub_headers_from False post"
    by (rule re_sub_headers_from_header_line[OF assms(2-7) p1 p2])
  then have a: "clean_description (pre @ hs @ w # body @ post) =
           strip (re_sub_headers pre @ re_sub_headers_from False post)"
    by (simp add: clean_description_def re_sub_headers_def)
  have b: "clean_description text = [] \<or>
            (\<not> isspace (hd (clean_description text)) \<and> \<not> isspace (last (clean_description text)))"
    unfolding clean_description_def by (rule strip_trimmed)
  have c: "clean_description (str ''# Welcome\<newline>Body text'') = str ''Body text''"
    by (simp add: clean_eval)
  from a b c show ?thesis by simp
qed

theorem clean_description_removes_header_lines_witness:
  "clean_description (str ''Intro\<newline>## Agenda\<newline>Body'') = str ''Intro\<newline>\<newline>Body'' \<and>
   clean_description (str ''# Welcome\<newline>Body text'') = str ''Body text''"
proof -
  have "clean_description (str ''Intro\<newline>'' @ str ''##'' @ 32 # str ''Agenda'' @ str ''\<newline>Body'') =
           strip (re_sub_headers (str ''Intro\<newline>'') @ re_sub_headers_from False (str ''\<newline>Body'')) \<and>
         (clean_description [] = [] \<or>
            (\<not> isspace (hd (clean_description [])) \<and> \<not> isspace (last (clean_description [])))) \<and>
         clean_description (str ''# Welcome\<newline>Body text'') = str ''Body text''"
    by (rule clean_description_removes_header_lines) (simp_all add: str_def isspace_def)
  then show ?thesis by (simp add: clean_eval)
qed

section \<open>Properties of generate_event_content\<close>

lemmas model_eval =
  generate_event_content_def post_process_def pollinations_url_def download_image_def
  dict_get_def quote_def utf8_encode_char_def quote_byte_def always_safe_def hex_digit_def
  str_of_nat.simps os_path_join.simps replace_def startswith_def os_path_dirname_def headers_def
  clean_description_def re_sub_headers_def match_header_def isspace_def strip_def str_def
  example_world_def backend_error_def backend_down_def backend_turbo_only_def example_content_def
  is_image_response_def store_image_def image_attempt_def image_request_url_def usable_def
  valid_EventContent_def valid_AgendaItem_def is_str_def
  Let_def

lemma dict_get_dict_set:
  "dict_get (dict_set d k v) k' = (if k' = k then Some v else dict_get d k')"
  by (induction d) (auto simp: dict_get_def)

lemma str_keys_distinct [simp]:
  "str ''description'' \<noteq> str ''imageUrl''" "str ''image_prompt'' \<noteq> str ''imageUrl''"
  "str ''image_prompt'' \<noteq> str ''description''" "str ''imageUrl'' \<noteq> str ''description''"
  "str ''imageUrl'' \<noteq> str ''image_prompt''" "str ''description'' \<noteq> str ''image_prompt''"
  by (simp_all add: str_def)




lemma download_image_acquire:
  "download_image w result url =
     (dict_set result (str ''imageUrl'') (JStr (fst (acquire_image w url))),
      snd (acquire_image w url))"
  by (simp add: download_image_def acquire_image_def is_image_response_def image_attempt_def
      store_image_def Let_def split: sum.split option.split)

lemma generate_event_content_dict:
  "generate_event_content w (Inr (JDict d)) =
     (case post_process d of
        Inl e \<Rightarrow> (Inl e, [])
      | Inr d1 \<Rightarrow>
          (case dict_get d1 (str ''image_prompt'') of
             None \<Rightarrow> (Inr (JDict (dict_set d1 (str ''imageUrl'') (JStr []))), [])
           | Some p \<Rightarrow>
               (case pollinations_url w p of
                  Inl e \<Rightarrow> (Inl e, [])
                | Inr url \<Rightarrow>
                    (Inr (JDict (dict_set d1 (str ''imageUrl'') (JStr (fst (acquire_image w url))))),
                     snd (acquire_image w url)))))"
  by (simp add: generate_event_content_def download_image_acquire split: sum.split option.split)

lemma post_process_cases:
  "post_process d = Inr d1 \<Longrightarrow>
     (dict_get d (str ''description'') = None \<and> d1 = d) \<or>
     (\<exists>t. dict_get d (str ''description'') = Some (JStr t) \<and>
          d1 = dict_set d (str ''description'') (JStr (clean_description t)))"
  by (auto simp: post_process_def split: option.splits json.splits)

lemma post_process_frame:
  "post_process d = Inr d1 \<Longrightarrow> k \<noteq> str ''description'' \<Longrightarrow> dict_get d1 k = dict_get d k"
  by (auto dest!: post_process_cases simp: dict_get_dict_set)

lemma generate_returns:
  assumes "fst (generate_event_content w chain_result) = Inr r"
  shows "\<exists>d d1 s. chain_result = Inr (JDict d) \<and> post_process d = Inr d1 \<and>
            r = JDict (dict_set d1 (str ''imageUrl'') (JStr s))"
proof -
  from assms obtain v where cr: "chain_result = Inr v"
    by (cases chain_result) (auto simp: generate_event_content_def)
  from assms cr obtain d where v: "v = JDict d"
    by (cases v) (auto simp: generate_event_content_def)
  from assms show ?thesis
    unfolding cr v generate_event_content_dict
    by (auto split: sum.splits option.splits)
qed

text \<open>
  Claim C1: whenever \<open>generate_event_content\<close> returns (does not raise), the result is a
  dictionary with the key \<open>imageUrl\<close> bound to a string, possibly the empty one; this
  holds for every value of the text step and every behaviour of the image backend and of
  the file system.
\<close>

theorem imageUrl_always_defined:
  assumes "fst (generate_event_content w chain_result) = Inr r"
  shows "\<exists>d s. r = JDict d \<and> dict_get d (str ''imageUrl'') = Some (JStr s)"
  using generate_returns[OF assms] by (auto simp: dict_get_dict_set)

theorem imageUrl_always_defined_witness:
  "\<exists>d s. fst (generate_event_content (example_world backend_error) (Inr example_content)) =
            Inr (JDict d) \<and>
          dict_get d (str ''imageUrl'') = Some (JStr s)"
proof -
  have h: "fst (generate_event_content (example_world backend_error) (Inr example_content)) =
    Inr (JDict [(str ''description'', JStr (str ''Body text'')),
            (str ''agenda'', JList []),
            (str ''tags'', JList [JStr (str ''ai'')]),
            (str ''image_prompt'', JStr (str ''a cat'')),
            (str ''imageUrl'', JStr [])])"
    by (simp add: model_eval)
  from imageUrl_always_defined[OF h] show ?thesis unfolding h by simp
qed

text \<open>
  Claim C4: when the text-generation step raises, \<open>generate_event_content\<close> raises that
  same exception, returns no result, and performs no request and no file operation (the
  image step is not reached).
\<close>

theorem text_failure_propagates:
  "generate_event_content w (Inl e) = (Inl e, [])"
  by (simp add: generate_event_content_def)

text \<open>
  Claim C10: when \<open>generate_event_content\<close> returns on a parsed dictionary \<open>d\<close>, the
  result is \<open>d\<close> with the description (when present) replaced by its cleaned form and
  with \<open>imageUrl\<close> set; every other key has the value it had in \<open>d\<close>.
\<close>

theorem result_is_parsed_dict_with_two_changes:
  assumes "fst (generate_event_content w (Inr (JDict d))) = Inr r"
  shows "\<exists>d' url. r = JDict d' \<and>
           d' = dict_set (case dict_get d (str ''description'') of
                            Some (JStr t) \<Rightarrow> dict_set d (str ''description'') (JStr (clean_description t))
                          | _ \<Rightarrow> d)
                  (str ''imageUrl'') (JStr url) \<and>
           dict_get d' (str ''imageUrl'') = Some (JStr url) \<and>
           dict_get d' (str ''description'') =
             (case dict_get d (str ''description'') of
                Some (JStr t) \<Rightarrow> Some (JStr (clean_description t)) | other \<Rightarrow> other) \<and>
           (\<forall>k. k \<noteq> str ''description'' \<and> k \<noteq> str ''imageUrl'' \<longrightarrow> dict_get d' k = dict_get d k)"
proof -
  from generate_returns[OF assms] obtain d1 s where
    pp: "post_process d = Inr d1" and r: "r = JDict (dict_set d1 (str ''imageUrl'') (JStr s))"
    by auto
  from post_process_cases[OF pp] show ?thesis
    by (auto simp: r dict_get_dict_set)
qed

theorem result_is_parsed_dict_with_two_changes_witness:
  "\<exists>d' url.
     fst (generate_event_content (example_world backend_turbo_only) (Inr example_content)) =
       Inr (JDict d') \<and>
     dict_get d' (str ''imageUrl'') = Some (JStr url) \<and>
     dict_get d' (str ''description'') = Some (JStr (str ''Body text'')) \<and>
     dict_get d' (str ''tags'') = Some (JList [JStr (str ''ai'')])"
proof -
  let ?d = "[(str ''description'', JStr (str ''# Welcome\<newline>Body text'')),
            (str ''agenda'', JList []),
            (str ''tags'', JList [JStr (str ''ai'')]),
            (str ''image_prompt'', JStr (str ''a cat''))]"
  let ?r = "JDict [(str ''description'', JStr (str ''Body text'')),
            (str ''agenda'', JList []),
            (str ''tags'', JList [JStr (str ''ai'')]),
            (str ''image_prompt'', JStr (str ''a cat'')),
            (str ''imageUrl'',
             JStr (str ''http://localhost:8000/uploads/ai_gen_123e4567-e89b-42d3-a456-426614174000.png''))]"
  have h: "fst (generate_event_content (example_world backend_turbo_only) (Inr (JDict ?d))) = Inr ?r"
    by (simp add: model_eval)
  have e: "example_content = JDict ?d" by (simp add: example_content_def)
  from result_is_parsed_dict_with_two_changes[OF h] show ?thesis
    unfolding e h by (simp add: model_eval)
qed

lemma post_process_ok:
  assumes "dict_get d (str ''description'') = None \<or>
           (\<exists>t. dict_get d (str ''description'') = Some (JStr t))"
  shows "\<exists>d1. post_process d = Inr d1 \<and>
              dict_get d1 (str ''image_prompt'') = dict_get d (str ''image_prompt'')"
  using assms by (auto simp: post_process_def dict_get_dict_set)

lemma pollinations_url_JStr:
  "pollinations_url w (JStr p) =
     (case quote (take 200 p @ str '', cinematic lighting'') of
        Inl e \<Rightarrow> Inl e
      | Inr enc \<Rightarrow>
          Inr (image_request_url (str ''flux'') enc (randint w) (getenv_POLLINATIONS_API_KEY w)))"
  by (simp add: pollinations_url_def image_request_url_def Let_def str_def
      split: sum.split option.split)

lemma pollinations_url_not_str:
  "(\<forall>p. v \<noteq> JStr p) \<Longrightarrow> pollinations_url w v = Inl TypeError"
  by (cases v) (simp_all add: pollinations_url_def)

lemma acquire_image_first_event:
  "\<exists>rest. snd (acquire_image w url) = HttpGet url headers 30 # rest"
  by (simp add: acquire_image_def Let_def split: sum.split)

lemma acquire_image_failure:
  assumes "(\<exists>e. requests_get w url = Inl e) \<or>
           (\<exists>r1. requests_get w url = Inr r1 \<and> \<not> is_image_response r1 \<and>
              ((\<exists>e. requests_get w (replace url (str ''model=flux'') (str ''model=turbo'')) = Inl e) \<or>
               (\<exists>r2. requests_get w (replace url (str ''model=flux'') (str ''model=turbo'')) = Inr r2 \<and>
                     \<not> is_image_response r2)))"
  shows "fst (acquire_image w url) = []"
  using assms by (auto simp: acquire_image_def image_attempt_def Let_def)

text \<open>
  Claim C3: take a parsed dictionary whose description is absent or a string and whose
  image prompt yields the request URL \<open>url\<close>, so that the download is attempted. If the
  first request raises, or its response fails the success condition and the retry raises
  or its response fails the success condition too, then the call returns (nothing is
  raised) and the result has \<open>imageUrl\<close> bound to the empty string.
\<close>

theorem image_failure_gives_empty_imageUrl:
  assumes desc: "dict_get d (str ''description'') = None \<or>
                 (\<exists>t. dict_get d (str ''description'') = Some (JStr t))"
    and prompt: "dict_get d (str ''image_prompt'') = Some image_prompt"
    and url: "pollinations_url w image_prompt = Inr url"
    and fail: "(\<exists>e. requests_get w url = Inl e) \<or>
           (\<exists>r1. requests_get w url = Inr r1 \<and> \<not> is_image_response r1 \<and>
              ((\<exists>e. requests_get w (replace url (str ''model=flux'') (str ''model=turbo'')) = Inl e) \<or>
               (\<exists>r2. requests_get w (replace url (str ''model=flux'') (str ''model=turbo'')) = Inr r2 \<and>
                     \<not> is_image_response r2)))"
  shows "\<exists>d'. fst (generate_event_content w (Inr (JDict d))) = Inr (JDict d') \<and>
              dict_get d' (str ''imageUrl'') = Some (JStr [])"
proof -
  from post_process_ok[OF desc] obtain d1 where
    pp: "post_process d = Inr d1" and
    ip: "dict_get d1 (str ''image_prompt'') = dict_get d (str ''image_prompt'')" by blast
  have "fst (generate_event_content w (Inr (JDict d))) =
        Inr (JDict (dict_set d1 (str ''imageUrl'') (JStr [])))"
    by (simp add: generate_event_content_dict pp ip prompt url acquire_image_failure[OF fail])
  then show ?thesis by (simp add: dict_get_dict_set)
qed

theorem image_failure_gives_empty_imageUrl_witness:
  "\<exists>d'. fst (generate_event_content (example_world backend_error) (Inr example_content)) =
            Inr (JDict d') \<and>
        dict_get d' (str ''imageUrl'') = Some (JStr [])"
proof -
  let ?d = "[(str ''description'', JStr (str ''# Welcome\<newline>Body text'')),
            (str ''agenda'', JList []),
            (str ''tags'', JList [JStr (str ''ai'')]),
            (str ''image_prompt'', JStr (str ''a cat''))]"
  let ?w = "example_world backend_error"
  let ?url = "str ''https://image.pollinations.ai/prompt/a%20cat%2C%20cinematic%20lighting.png?width=1280&height=720&model=flux&nologo=true&seed=42''"
  have 1: "dict_get ?d (str ''description'') = None \<or>
           (\<exists>t. dict_get ?d (str ''description'') = Some (JStr t))"
    by (simp add: dict_get_def str_def)
  have 2: "dict_get ?d (str ''image_prompt'') = Some (JStr (str ''a cat''))"
    by (simp add: dict_get_def str_def)
  have 3: "pollinations_url ?w (JStr (str ''a cat'')) = Inr ?url"
    by (simp add: model_eval)
  have 4: "(\<exists>e. requests_get ?w ?url = Inl e) \<or>
           (\<exists>r1. requests_get ?w ?url = Inr r1 \<and> \<not> is_image_response r1 \<and>
              ((\<exists>e. requests_get ?w (replace ?url (str ''model=flux'') (str ''model=turbo'')) = Inl e) \<or>
               (\<exists>r2. requests_get ?w (replace ?url (str ''model=flux'') (str ''model=turbo'')) = Inr r2 \<and>
                     \<not> is_image_response r2)))"
    by (simp add: example_world_def backend_error_def is_image_response_def)
  from image_failure_gives_empty_imageUrl[OF 1 2 3 4] show ?thesis
    by (simp add: example_content_def)
qed

text \<open>
  Claim C5 says that a value of the text step that does not conform to the schema makes
  the pipeline fail. The code validates nothing: \<open>JsonOutputParser\<close> hands over the parsed
  JSON, and \<open>generate_event_content\<close> itself guards against absent keys. A dictionary
  without \<open>tags\<close> and \<open>image_prompt\<close>, whose only agenda item lacks \<open>title\<close> and
  \<open>speaker\<close>, is returned with an empty \<open>imageUrl\<close>.
\<close>

theorem nonconformant_content_is_returned:
  "\<not> valid_EventContent
       (JDict [(str ''description'', JStr (str ''Hi'')),
               (str ''agenda'', JList [JDict [(str ''time'', JStr (str ''10:00 AM''))]])]) \<and>
   generate_event_content (example_world backend_error)
     (Inr (JDict [(str ''description'', JStr (str ''Hi'')),
                  (str ''agenda'', JList [JDict [(str ''time'', JStr (str ''10:00 AM''))]])])) =
     (Inr (JDict [(str ''description'', JStr (str ''Hi'')),
                  (str ''agenda'', JList [JDict [(str ''time'', JStr (str ''10:00 AM''))]]),
                  (str ''imageUrl'', JStr [])]), [])"
  by (simp add: model_eval)

text \<open>
  Claim C5 as amended: \<open>generate_event_content\<close> checks only what it uses. It returns a
  result exactly when the value of the text step is a dictionary whose \<open>description\<close> is
  absent or a string and whose \<open>image_prompt\<close> is absent or a string that the URL
  construction can encode (\<open>usable\<close>); on every other value it raises. \<open>agenda\<close> and
  \<open>tags\<close> are never inspected.
\<close>

theorem result_iff_usable:
  "(\<exists>r. fst (generate_event_content w (Inr v)) = Inr r) \<longleftrightarrow> usable v"
proof (cases v)
  case (JDict d)
  show ?thesis
  proof (cases "dict_get d (str ''description'') = None \<or>
                (\<exists>t. dict_get d (str ''description'') = Some (JStr t))")
    case False
    then have "post_process d = Inl TypeError"
      by (auto simp: post_process_def split: option.splits json.splits)
    moreover from False have "\<not> usable (JDict d)"
      by (auto simp: usable_def split: option.splits json.splits)
    ultimately show ?thesis by (simp add: JDict generate_event_content_dict)
  next
    case True
    from post_process_ok[OF True] obtain d1 where
      pp: "post_process d = Inr d1" and
      ip: "dict_get d1 (str ''image_prompt'') = dict_get d (str ''image_prompt'')" by blast
    from True have u: "usable (JDict d) \<longleftrightarrow>
      (case dict_get d (str ''image_prompt'') of
             None \<Rightarrow> True
           | Some (JStr p) \<Rightarrow>
               (case quote (take 200 p @ str '', cinematic lighting'') of
                  Inl e \<Rightarrow> False | Inr enc \<Rightarrow> True)
           | Some _ \<Rightarrow> False)"
      by (auto simp: usable_def)
    show ?thesis
    proof (cases "dict_get d (str ''image_prompt'')")
      case None
      then show ?thesis by (simp add: JDict generate_event_content_dict pp ip u)
    next
      case (Some x)
      show ?thesis
      proof (cases "\<exists>p. x = JStr p")
        case True
        then obtain p where "x = JStr p" by blast
        then show ?thesis
          by (simp add: JDict generate_event_content_dict pp ip u Some pollinations_url_JStr
              split: sum.split)
      next
        case False
        then have "pollinations_url w x = Inl TypeError"
          by (simp add: pollinations_url_not_str)
        moreover from False have "\<not> usable (JDict d)"
          unfolding u Some by (cases x) simp_all
        ultimately show ?thesis
          by (simp add: JDict generate_event_content_dict pp ip Some)
      qed
    qed
  qed
qed (simp_all add: generate_event_content_def usable_def)

theorem result_iff_usable_witness:
  "usable (JDict [(str ''agenda'', JInt 3)]) \<and>
   (\<exists>r. fst (generate_event_content (example_world backend_error)
              (Inr (JDict [(str ''agenda'', JInt 3)]))) = Inr r) \<and>
   \<not> usable (JDict [(str ''description'', JInt 3)]) \<and>
   \<not> (\<exists>r. fst (generate_event_content (example_world backend_error)
              (Inr (JDict [(str ''description'', JInt 3)]))) = Inr r)"
  using result_iff_usable[of "example_world backend_error" "JDict [(str ''agenda'', JInt 3)]"]
        result_iff_usable[of "example_world backend_error" "JDict [(str ''description'', JInt 3)]"]
  by (simp add: usable_def dict_get_def str_def)

text \<open>
  Claim C9: for a parsed dictionary that reaches the image step with the prompt \<open>p\<close>, the
  first request goes to the URL built from the first 200 characters of \<open>p\<close>, the suffix
  \<open>", cinematic lighting"\<close>, percent-encoded (\<open>enc\<close>), as
  \<open>https://image.pollinations.ai/prompt/{enc}.png?width=1280&height=720&model=flux&nologo=true&seed={seed}\<close>,
  followed by \<open>&api_key={key}\<close> exactly when the environment variable is set to a
  non-empty key. (When the encoding raises, no URL is built and no request is made.)
\<close>

theorem first_request_url:
  assumes desc: "dict_get d (str ''description'') = None \<or>
                 (\<exists>t. dict_get d (str ''description'') = Some (JStr t))"
    and prompt: "dict_get d (str ''image_prompt'') = Some (JStr p)"
    and enc: "quote (take 200 p @ str '', cinematic lighting'') = Inr enc"
  shows "\<exists>rest. snd (generate_event_content w (Inr (JDict d))) =
           HttpGet (str ''https://image.pollinations.ai/prompt/'' @ enc @
                    str ''.png?width=1280&height=720&model=flux&nologo=true&seed='' @
                    str_of_nat (randint w) @
                    (case getenv_POLLINATIONS_API_KEY w of
                       None \<Rightarrow> []
                     | Some key \<Rightarrow> if key = [] then [] else str ''&api_key='' @ key))
                   headers 30 # rest"
proof -
  from post_process_ok[OF desc] obtain d1 where
    pp: "post_process d = Inr d1" and
    ip: "dict_get d1 (str ''image_prompt'') = dict_get d (str ''image_prompt'')" by blast
  let ?url = "image_request_url (str ''flux'') enc (randint w) (getenv_POLLINATIONS_API_KEY w)"
  have u: "?url = str ''https://image.pollinations.ai/prompt/'' @ enc @
                    str ''.png?width=1280&height=720&model=flux&nologo=true&seed='' @
                    str_of_nat (randint w) @
                    (case getenv_POLLINATIONS_API_KEY w of
                       None \<Rightarrow> []
                     | Some key \<Rightarrow> if key = [] then [] else str ''&api_key='' @ key)"
    by (simp add: image_request_url_def str_def)
  have "snd (generate_event_content w (Inr (JDict d))) = snd (acquire_image w ?url)"
    by (simp add: generate_event_content_dict pp ip prompt pollinations_url_JStr enc)
  with acquire_image_first_event[of w ?url] show ?thesis unfolding u by simp
qed

theorem first_request_url_witness:
  "\<exists>rest. snd (generate_event_content (example_world backend_down) (Inr example_content)) =
     HttpGet (str ''https://image.pollinations.ai/prompt/a%20cat%2C%20cinematic%20lighting.png?width=1280&height=720&model=flux&nologo=true&seed=42'')
       headers 30 # rest"
proof -
  let ?d = "[(str ''description'', JStr (str ''# Welcome\<newline>Body text'')),
            (str ''agenda'', JList []),
            (str ''tags'', JList [JStr (str ''ai'')]),
            (str ''image_prompt'', JStr (str ''a cat''))]"
  have 1: "dict_get ?d (str ''description'') = None \<or>
           (\<exists>t. dict_get ?d (str ''description'') = Some (JStr t))"
    by (simp add: dict_get_def str_def)
  have 2: "dict_get ?d (str ''image_prompt'') = Some (JStr (str ''a cat''))"
    by (simp add: dict_get_def str_def)
  have 3: "quote (take 200 (str ''a cat'') @ str '', cinematic lighting'') =
           Inr (str ''a%20cat%2C%20cinematic%20lighting'')"
    by (simp add: model_eval)
  from first_request_url[OF 1 2 3, of "example_world backend_down"] show ?thesis
    by (simp add: example_content_def example_world_def str_def str_of_nat.simps)
qed

section \<open>The retry request\<close>

lemma str_model_flux: "str ''model=flux'' = [109, 111, 100, 101, 108, 61, 102, 108, 117, 120]"
  and str_model_turbo: "str ''model=turbo'' = [109, 111, 100, 101, 108, 61, 116, 117, 114, 98, 111]"
  by (simp_all add: str_def)

lemma hex_digit_not_eq: "hex_digit n \<noteq> 61"
  by (simp add: hex_digit_def)

lemma quote_byte_no_eq: "61 \<notin> set (quote_byte b)"
  by (auto simp: quote_byte_def always_safe_def hex_digit_not_eq)

lemma quote_no_eq: "quote s = Inr enc \<Longrightarrow> 61 \<notin> set enc"
  by (auto simp: quote_def quote_byte_no_eq split: option.splits)

lemma str_of_nat_digits: "c \<in> set (str_of_nat n) \<Longrightarrow> 48 \<le> c \<and> c \<le> 57"
proof (induction n arbitrary: c rule: str_of_nat.induct)
  case (1 n)
  show ?case
  proof (cases "n < 10")
    case True
    with "1.prems" show ?thesis by (simp add: str_of_nat.simps[of n])
  next
    case False
    with "1.prems" have "c \<in> set (str_of_nat (n div 10)) \<or> c = 48 + n mod 10"
      by (auto simp add: str_of_nat.simps[of n])
    then show ?thesis
    proof
      assume "c \<in> set (str_of_nat (n div 10))"
      with "1.IH"[OF False] show ?thesis by blast
    next
      assume "c = 48 + n mod 10"
      moreover have "n mod 10 < 10" by simp
      ultimately show ?thesis by linarith
    qed
  qed
qed

lemma str_of_nat_no_m: "109 \<notin> set (str_of_nat n)"
  using str_of_nat_digits[of 109 n] by auto

lemma replace_scan_skip:
  "c \<noteq> 109 \<Longrightarrow>
   replace_scan [109, 111, 100, 101, 108, 61, 102, 108, 117, 120] new (c # cs) =
   c # replace_scan [109, 111, 100, 101, 108, 61, 102, 108, 117, 120] new cs"
  by (simp add: startswith_def)

lemma replace_scan_skip_m:
  "c \<noteq> 111 \<Longrightarrow>
   replace_scan [109, 111, 100, 101, 108, 61, 102, 108, 117, 120] new (109 # c # cs) =
   109 # replace_scan [109, 111, 100, 101, 108, 61, 102, 108, 117, 120] new (c # cs)"
  by (simp add: startswith_def)

lemma replace_scan_hit:
  "replace_scan [109, 111, 100, 101, 108, 61, 102, 108, 117, 120] new
     (109 # 111 # 100 # 101 # 108 # 61 # 102 # 108 # 117 # 120 # cs) =
   new @ replace_scan [109, 111, 100, 101, 108, 61, 102, 108, 117, 120] new cs"
  by (simp add: startswith_def)

lemma replace_scan_no_m:
  "109 \<notin> set xs \<Longrightarrow>
   replace_scan [109, 111, 100, 101, 108, 61, 102, 108, 117, 120] new (xs @ ys) =
   xs @ replace_scan [109, 111, 100, 101, 108, 61, 102, 108, 117, 120] new ys"
  by (induction xs) (simp_all add: replace_scan_skip del: replace_scan.simps)

lemma not_startswith_flux:
  assumes "61 \<notin> set e"
  shows "\<not> startswith (e @ 46 # rest) [109, 111, 100, 101, 108, 61, 102, 108, 117, 120]"
proof
  let ?pat = "[109, 111, 100, 101, 108, 61, 102, 108, 117, 120] :: nat list"
  assume a: "startswith (e @ 46 # rest) ?pat"
  have len: "length ?pat = 10" by simp
  have t: "take 10 (e @ 46 # rest) = ?pat" using a unfolding startswith_def len .
  show False
  proof (cases "10 \<le> length e")
    case True
    with t have "take 10 e = ?pat" by simp
    then have "61 \<in> set (take 10 e)" by simp
    then have "61 \<in> set e" by (rule in_set_takeD)
    with assms show False by simp
  next
    case False
    then have l: "length e < 10" by simp
    have "take 10 (e @ 46 # rest) ! length e = (e @ 46 # rest) ! length e"
      using l by (rule nth_take)
    then have "take 10 (e @ 46 # rest) ! length e = 46" by (simp only: nth_append_length)
    with t have "?pat ! length e = 46" by simp
    moreover have "\<forall>i<10. ?pat ! i \<noteq> 46"
      by (simp add: All_less_Suc numeral_eq_Suc nth_Cons')
    ultimately show False using l by blast
  qed
qed

lemma replace_scan_encoded:
  "61 \<notin> set enc \<Longrightarrow>
   replace_scan [109, 111, 100, 101, 108, 61, 102, 108, 117, 120] new (enc @ 46 # rest) =
   enc @ replace_scan [109, 111, 100, 101, 108, 61, 102, 108, 117, 120] new (46 # rest)"
proof (induction enc)
  case Nil
  show ?case by simp
next
  case (Cons c enc)
  then have "61 \<notin> set (c # enc)" by simp
  from not_startswith_flux[OF this, of rest] Cons show ?case by simp
qed

lemma replace_scan_absent:
  "\<not> contains old s \<Longrightarrow> replace_scan old new s = s"
  by (induction old new s rule: replace_scan.induct) auto

lemma contains_append: "contains sub ys \<Longrightarrow> contains sub (xs @ ys)"
  by (induction xs) (auto simp: neq_Nil_conv)

lemma contains_prefix: "sub \<noteq> [] \<Longrightarrow> contains sub (sub @ ys)"
  by (cases sub) (simp_all add: startswith_def)

lemma contains_flux_url:
  "contains (str ''model=flux'') (image_request_url (str ''flux'') enc seed key)"
proof -
  let ?A = "str ''https://image.pollinations.ai'' @ str ''/prompt/'' @ enc @
            str ''.png?width=1280&height=720&''"
  let ?B = "str ''&nologo=true&seed='' @ str_of_nat seed @
     (case key of None \<Rightarrow> [] | Some k \<Rightarrow> if k = [] then [] else str ''&api_key='' @ k)"
  have "image_request_url (str ''flux'') enc seed key = ?A @ str ''model=flux'' @ ?B"
    by (simp add: image_request_url_def str_def)
  moreover have "contains (str ''model=flux'') (str ''model=flux'' @ ?B)"
    by (rule contains_prefix) (simp add: str_def)
  ultimately show ?thesis by (simp only: contains_append)
qed

lemma replace_scan_nonempty:
  "s \<noteq> [] \<Longrightarrow> new \<noteq> [] \<Longrightarrow> replace_scan old new s \<noteq> []"
  by (cases s) simp_all

lemma replace_scan_digits:
  "replace_scan [109, 111, 100, 101, 108, 61, 102, 108, 117, 120] new (str_of_nat n) =
   str_of_nat n"
  using replace_scan_no_m[OF str_of_nat_no_m, of new n "[]"] by simp

lemma flux_nonempty: "str ''model=flux'' \<noteq> []"
  by (simp add: str_def)

lemma retry_url:
  assumes "61 \<notin> set enc"
  shows "replace (image_request_url (str ''flux'') enc seed key) (str ''model=flux'')
           (str ''model=turbo'') =
         image_request_url (str ''turbo'') enc seed
           (map_option (\<lambda>k. replace k (str ''model=flux'') (str ''model=turbo'')) key)"
proof (cases key)
  case None
  then show ?thesis
    by (simp add: replace_def image_request_url_def str_def replace_scan_skip
        replace_scan_skip_m replace_scan_hit replace_scan_encoded[OF assms]
        replace_scan_no_m[OF str_of_nat_no_m] replace_scan_digits del: replace_scan.simps(2))
next
  case (Some k)
  show ?thesis
  proof (cases "k = []")
    case True
    with Some show ?thesis
      by (simp add: replace_def image_request_url_def str_def replace_scan_skip
          replace_scan_skip_m replace_scan_hit replace_scan_encoded[OF assms]
          replace_scan_no_m[OF str_of_nat_no_m] replace_scan_digits del: replace_scan.simps(2))
  next
    case False
    then have "replace_scan [109, 111, 100, 101, 108, 61, 102, 108, 117, 120]
                 [109, 111, 100, 101, 108, 61, 116, 117, 114, 98, 111] k \<noteq> []"
      by (rule replace_scan_nonempty) simp
    with Some False show ?thesis
      by (simp add: replace_def image_request_url_def str_def replace_scan_skip
          replace_scan_skip_m replace_scan_hit replace_scan_encoded[OF assms]
          replace_scan_no_m[OF str_of_nat_no_m] replace_scan_digits del: replace_scan.simps(2))
  qed
qed

lemma retry_url_clean_key:
  assumes "61 \<notin> set enc" and "\<forall>k. key = Some k \<longrightarrow> \<not> contains (str ''model=flux'') k"
  shows "replace (image_request_url (str ''flux'') enc seed key) (str ''model=flux'')
           (str ''model=turbo'') =
         image_request_url (str ''turbo'') enc seed key"
proof -
  have "map_option (\<lambda>k. replace k (str ''model=flux'') (str ''model=turbo'')) key = key"
    using assms(2) by (cases key) (simp_all add: replace_def replace_scan_absent flux_nonempty)
  with retry_url[OF assms(1), of seed key] show ?thesis by simp
qed

lemma image_attempt_no_requests: "requests_made (snd (image_attempt w outcome)) = []"
  by (simp add: image_attempt_def store_image_def Let_def split: sum.split option.split)

lemma generate_with_prompt:
  assumes desc: "dict_get d (str ''description'') = None \<or>
                 (\<exists>t. dict_get d (str ''description'') = Some (JStr t))"
    and prompt: "dict_get d (str ''image_prompt'') = Some (JStr p)"
    and enc: "quote (take 200 p @ str '', cinematic lighting'') = Inr enc"
  shows "\<exists>d1. post_process d = Inr d1 \<and>
           generate_event_content w (Inr (JDict d)) =
             (Inr (JDict (dict_set d1 (str ''imageUrl'')
                (JStr (fst (acquire_image w
                   (image_request_url (str ''flux'') enc (randint w)
                      (getenv_POLLINATIONS_API_KEY w))))))),
              snd (acquire_image w
                   (image_request_url (str ''flux'') enc (randint w)
                      (getenv_POLLINATIONS_API_KEY w))))"
proof -
  from post_process_ok[OF desc] obtain d1 where
    pp: "post_process d = Inr d1" and
    ip: "dict_get d1 (str ''image_prompt'') = dict_get d (str ''image_prompt'')" by blast
  show ?thesis
    by (simp add: generate_event_content_dict pp ip prompt pollinations_url_JStr enc)
qed

text \<open>
  Claim C2 says that any failure of the first request, a raised exception included, is
  followed by one retry with the model swapped. In the code the retry sits in the
  \<open>else\<close> branch of the response check, inside the \<open>try\<close>: an exception raised by the
  first \<open>requests.get\<close> goes straight to the handler. With the backend unreachable there
  is one request and no retry.
\<close>

theorem no_retry_after_transport_error:
  "requests_get (example_world backend_down)
     (str ''https://image.pollinations.ai/prompt/a%20cat%2C%20cinematic%20lighting.png?width=1280&height=720&model=flux&nologo=true&seed=42'') =
     Inl (Raised ''ConnectionError'') \<and>
   generate_event_content (example_world backend_down) (Inr example_content) =
   (Inr (JDict [(str ''description'', JStr (str ''Body text'')),
            (str ''agenda'', JList []),
            (str ''tags'', JList [JStr (str ''ai'')]),
            (str ''image_prompt'', JStr (str ''a cat'')),
            (str ''imageUrl'', JStr [])]),
    [HttpGet (str ''https://image.pollinations.ai/prompt/a%20cat%2C%20cinematic%20lighting.png?width=1280&height=720&model=flux&nologo=true&seed=42'') headers 30])"
  by (simp add: model_eval)

text \<open>
  Claim C2 as amended: for a parsed dictionary that reaches the image step, let \<open>url\<close> be
  the request URL and \<open>retry_url\<close> be \<open>url\<close> with every \<open>model=flux\<close> replaced by
  \<open>model=turbo\<close>. If the first request raises, \<open>imageUrl\<close> is empty and nothing else is
  requested. If its response meets the success condition, the image is stored and
  nothing else is requested. If its response fails the success condition (bad status or
  a content type without \<open>image\<close>), exactly one more request is made, to \<open>retry_url\<close>,
  with the same headers and timeout, and its outcome is treated by the same success
  condition and persistence (\<open>image_attempt\<close>). Unless the API key itself contains
  \<open>model=flux\<close>, \<open>retry_url\<close> is the request URL for the model \<open>turbo\<close>.
\<close>

theorem retry_after_failed_response:
  assumes desc: "dict_get d (str ''description'') = None \<or>
                 (\<exists>t. dict_get d (str ''description'') = Some (JStr t))"
    and prompt: "dict_get d (str ''image_prompt'') = Some (JStr p)"
    and enc: "quote (take 200 p @ str '', cinematic lighting'') = Inr enc"
    and url: "url = image_request_url (str ''flux'') enc (randint w) (getenv_POLLINATIONS_API_KEY w)"
    and retry: "retry_url = replace url (str ''model=flux'') (str ''model=turbo'')"
    and out: "out = generate_event_content w (Inr (JDict d))"
  shows "\<exists>d1. post_process d = Inr d1 \<and>
     (case requests_get w url of
        Inl e \<Rightarrow>
          out = (Inr (JDict (dict_set d1 (str ''imageUrl'') (JStr []))), [HttpGet url headers 30])
      | Inr r1 \<Rightarrow>
          if is_image_response r1
          then out = (Inr (JDict (dict_set d1 (str ''imageUrl'')
                        (JStr (fst (image_attempt w (Inr r1)))))),
                      HttpGet url headers 30 # snd (image_attempt w (Inr r1)))
          else out = (Inr (JDict (dict_set d1 (str ''imageUrl'')
                        (JStr (fst (image_attempt w (requests_get w retry_url)))))),
                      HttpGet url headers 30 # HttpGet retry_url headers 30 #
                      snd (image_attempt w (requests_get w retry_url)))) \<and>
     requests_made (snd out) =
       (case requests_get w url of
          Inl e \<Rightarrow> [url]
        | Inr r1 \<Rightarrow> if is_image_response r1 then [url] else [url, retry_url]) \<and>
     ((\<forall>k. getenv_POLLINATIONS_API_KEY w = Some k \<longrightarrow> \<not> contains (str ''model=flux'') k) \<longrightarrow>
        retry_url = image_request_url (str ''turbo'') enc (randint w)
                      (getenv_POLLINATIONS_API_KEY w))"
proof -
  from generate_with_prompt[OF desc prompt enc, of w] obtain d1 where
    pp: "post_process d = Inr d1" and
    g: "out = (Inr (JDict (dict_set d1 (str ''imageUrl'') (JStr (fst (acquire_image w url))))),
               snd (acquire_image w url))"
    unfolding out url by blast
  have c: "contains (str ''model=flux'') url" unfolding url by (rule contains_flux_url)
  have a: "acquire_image w url =
     (case requests_get w url of
        Inl e \<Rightarrow> ([], [HttpGet url headers 30])
      | Inr r1 \<Rightarrow>
          if is_image_response r1
          then (fst (image_attempt w (Inr r1)),
                HttpGet url headers 30 # snd (image_attempt w (Inr r1)))
          else (fst (image_attempt w (requests_get w retry_url)),
                HttpGet url headers 30 # HttpGet retry_url headers 30 #
                snd (image_attempt w (requests_get w retry_url))))"
    by (simp add: acquire_image_def c retry image_attempt_def Let_def split: sum.split)
  have 1: "case requests_get w url of
        Inl e \<Rightarrow>
          out = (Inr (JDict (dict_set d1 (str ''imageUrl'') (JStr []))), [HttpGet url headers 30])
      | Inr r1 \<Rightarrow>
          if is_image_response r1
          then out = (Inr (JDict (dict_set d1 (str ''imageUrl'')
                        (JStr (fst (image_attempt w (Inr r1)))))),
                      HttpGet url headers 30 # snd (image_attempt w (Inr r1)))
          else out = (Inr (JDict (dict_set d1 (str ''imageUrl'')
                        (JStr (fst (image_attempt w (requests_get w retry_url)))))),
                      HttpGet url headers 30 # HttpGet retry_url headers 30 #
                      snd (image_attempt w (requests_get w retry_url)))"
    unfolding g a by (simp split: sum.split)
  have 2: "requests_made (snd out) =
       (case requests_get w url of
          Inl e \<Rightarrow> [url]
        | Inr r1 \<Rightarrow> if is_image_response r1 then [url] else [url, retry_url])"
    unfolding g a by (simp add: image_attempt_no_requests split: sum.split)
  have 3: "(\<forall>k. getenv_POLLINATIONS_API_KEY w = Some k \<longrightarrow> \<not> contains (str ''model=flux'') k) \<longrightarrow>
        retry_url = image_request_url (str ''turbo'') enc (randint w)
                      (getenv_POLLINATIONS_API_KEY w)"
    unfolding retry url using retry_url_clean_key[OF quote_no_eq[OF enc]] by blast
  from pp 1 2 3 show ?thesis by blast
qed

theorem retry_after_failed_response_witness:
  "requests_get (example_world backend_turbo_only)
     (str ''https://image.pollinations.ai/prompt/a%20cat%2C%20cinematic%20lighting.png?width=1280&height=720&model=flux&nologo=true&seed=42'') =
     Inr \<lparr>status_code = 500, content_type = Some (str ''text/html''), content = []\<rparr> \<and>
   requests_made (snd (generate_event_content (example_world backend_turbo_only)
                         (Inr example_content))) =
     [str ''https://image.pollinations.ai/prompt/a%20cat%2C%20cinematic%20lighting.png?width=1280&height=720&model=flux&nologo=true&seed=42'',
      str ''https://image.pollinations.ai/prompt/a%20cat%2C%20cinematic%20lighting.png?width=1280&height=720&model=turbo&nologo=true&seed=42'']"
proof -
  let ?d = "[(str ''description'', JStr (str ''# Welcome\<newline>Body text'')),
            (str ''agenda'', JList []),
            (str ''tags'', JList [JStr (str ''ai'')]),
            (str ''image_prompt'', JStr (str ''a cat''))]"
  let ?w = "example_world backend_turbo_only"
  have 1: "dict_get ?d (str ''description'') = None \<or>
           (\<exists>t. dict_get ?d (str ''description'') = Some (JStr t))"
    by (simp add: dict_get_def str_def)
  have 2: "dict_get ?d (str ''image_prompt'') = Some (JStr (str ''a cat''))"
    by (simp add: dict_get_def str_def)
  have 3: "quote (take 200 (str ''a cat'') @ str '', cinematic lighting'') =
           Inr (str ''a%20cat%2C%20cinematic%20lighting'')"
    by (simp add: model_eval)
  from retry_after_failed_response[OF 1 2 3 refl refl refl, of ?w] show ?thesis
    by (simp add: model_eval)
qed

text \<open>
  Claim C6 says that each attempt draws its own seed, so that the retry URL carries a
  seed different from the first. The only call of \<open>random.randint\<close> is the one made
  before the first URL is built, and the retry URL is derived from the first by replacing
  the model only: both requests carry the same seed (42 in this run).
\<close>

theorem retry_url_has_same_seed:
  "randint (example_world backend_error) = 42 \<and>
   snd (generate_event_content (example_world backend_error) (Inr example_content)) =
    [HttpGet (str ''https://image.pollinations.ai/prompt/a%20cat%2C%20cinematic%20lighting.png?width=1280&height=720&model=flux&nologo=true&seed=42'') headers 30,
     HttpGet (str ''https://image.pollinations.ai/prompt/a%20cat%2C%20cinematic%20lighting.png?width=1280&height=720&model=turbo&nologo=true&seed=42'') headers 30]"
  by (simp add: model_eval)

text \<open>
  Claim C6 as amended: the retry carries the seed of the first request. When the image
  prompt is a string that can be encoded and the first response fails the success
  condition, exactly two requests are made: the request URL for the model \<open>flux\<close> and
  the request URL for the model \<open>turbo\<close> with the same encoded prompt and the same seed
  \<open>randint w\<close>, the value that the first request was built with (in the API key, too,
  an occurrence of \<open>model=flux\<close> is replaced). No seed is generated for the retry.
\<close>

theorem retry_reuses_seed:
  assumes desc: "dict_get d (str ''description'') = None \<or>
                 (\<exists>t. dict_get d (str ''description'') = Some (JStr t))"
    and prompt: "dict_get d (str ''image_prompt'') = Some (JStr p)"
    and enc: "quote (take 200 p @ str '', cinematic lighting'') = Inr enc"
    and first: "requests_get w (image_request_url (str ''flux'') enc (randint w)
                  (getenv_POLLINATIONS_API_KEY w)) = Inr r1"
    and failed: "\<not> is_image_response r1"
  shows "requests_made (snd (generate_event_content w (Inr (JDict d)))) =
           [image_request_url (str ''flux'') enc (randint w) (getenv_POLLINATIONS_API_KEY w),
            image_request_url (str ''turbo'') enc (randint w)
              (map_option (\<lambda>k. replace k (str ''model=flux'') (str ''model=turbo''))
                 (getenv_POLLINATIONS_API_KEY w))]"
proof -
  let ?url = "image_request_url (str ''flux'') enc (randint w) (getenv_POLLINATIONS_API_KEY w)"
  from generate_with_prompt[OF desc prompt enc, of w] have
    g: "snd (generate_event_content w (Inr (JDict d))) = snd (acquire_image w ?url)"
    by auto
  have c: "contains (str ''model=flux'') ?url" by (rule contains_flux_url)
  have "requests_made (snd (acquire_image w ?url)) =
          [?url, replace ?url (str ''model=flux'') (str ''model=turbo'')]"
    by (simp add: acquire_image_def first failed c Let_def image_attempt_no_requests)
  then show ?thesis
    unfolding g retry_url[OF quote_no_eq[OF enc]] .
qed

theorem retry_reuses_seed_witness:
  "requests_made (snd (generate_event_content (example_world backend_error)
                         (Inr example_content))) =
     [image_request_url (str ''flux'') (str ''a%20cat%2C%20cinematic%20lighting'') 42 None,
      image_request_url (str ''turbo'') (str ''a%20cat%2C%20cinematic%20lighting'') 42 None]"
proof -
  let ?d = "[(str ''description'', JStr (str ''# Welcome\<newline>Body text'')),
            (str ''agenda'', JList []),
            (str ''tags'', JList [JStr (str ''ai'')]),
            (str ''image_prompt'', JStr (str ''a cat''))]"
  let ?w = "example_world backend_error"
  let ?r = "\<lparr>status_code = 500, content_type = Some (str ''text/html''), content = []\<rparr>"
  have 1: "dict_get ?d (str ''description'') = None \<or>
           (\<exists>t. dict_get ?d (str ''description'') = Some (JStr t))"
    by (simp add: dict_get_def str_def)
  have 2: "dict_get ?d (str ''image_prompt'') = Some (JStr (str ''a cat''))"
    by (simp add: dict_get_def str_def)
  have 3: "quote (take 200 (str ''a cat'') @ str '', cinematic lighting'') =
           Inr (str ''a%20cat%2C%20cinematic%20lighting'')"
    by (simp add: model_eval)
  have 4: "requests_get ?w (image_request_url (str ''flux'')
             (str ''a%20cat%2C%20cinematic%20lighting'') (randint ?w)
             (getenv_POLLINATIONS_API_KEY ?w)) = Inr ?r"
    by (simp add: example_world_def backend_error_def)
  have 5: "\<not> is_image_response ?r"
    by (simp add: is_image_response_def)
  from retry_reuses_seed[OF 1 2 3 4 5] show ?thesis
    by (simp add: example_content_def example_world_def)
qed

end
